theory Spec2Isabelle
  imports Main
begin

section \<open>The air cargo planning problem (my\_air\_cargo\_problems.py)\<close>

subsection \<open>Expressions, fluent states and the state codec\<close>

text \<open>
  Modelled from the spec: the expression type of \<^verbatim>\<open>aimacode.utils\<close> (not part of the
  sources at hand). A literal is a predicate name applied to two object identifiers, with the
  textual form \<^verbatim>\<open>Predicate(arg1, arg2)\<close>; equality is by predicate and arguments. An
  expression is an operator with a list of argument expressions; an object identifier is an
  expression without arguments.
\<close>

datatype expr = Expr string "expr list"

definition Symbol :: "string \<Rightarrow> expr" where
  "Symbol s = Expr s []"

text \<open>
  Modelled from the spec: \<^verbatim>\<open>expr("At({}, {})".format(x, y))\<close> and
  \<^verbatim>\<open>expr("In({}, {})".format(x, y))\<close> on identifiers made of letters and digits.
\<close>

definition At :: "string \<Rightarrow> string \<Rightarrow> expr" where
  "At x y = Expr ''At'' [Symbol x, Symbol y]"

definition In :: "string \<Rightarrow> string \<Rightarrow> expr" where
  "In x y = Expr ''In'' [Symbol x, Symbol y]"

text \<open>
  Modelled from the spec: the failure classes of the specification's error handling design.
  Of these only the length mismatch of the codec is ever returned by the functions below.
\<close>

datatype error = FormatError | StateEncodingError | RepresentationError

text \<open>
  Modelled from the spec: \<^verbatim>\<open>lp_utils.FluentState\<close>, the sparse state: the literals that
  hold and the literals that do not, each as a list.
\<close>

record FluentState =
  pos :: "expr list"
  neg :: "expr list"

text \<open>
  The encoded state is the vector of flags, one per position of the state map; the source
  renders it as a string of \<^verbatim>\<open>'T'\<close> and \<^verbatim>\<open>'F'\<close>, here \<open>True\<close> and \<open>False\<close>.
\<close>

type_synonym encoded_state = "bool list"

text \<open>
  Modelled from the spec: \<^verbatim>\<open>lp_utils.encode_state\<close>. For each literal of the state map, in
  order, the flag is true iff the literal is among the true literals of the sparse state;
  a literal of the sparse state that the map does not hold has no position, and nothing
  checks the false literals.
\<close>

definition encode_state :: "FluentState \<Rightarrow> expr list \<Rightarrow> encoded_state" where
  "encode_state fs fluent_map = map (\<lambda>fluent. fluent \<in> set (pos fs)) fluent_map"

text \<open>
  Modelled from the spec: \<^verbatim>\<open>lp_utils.decode_state\<close>. The state map is partitioned by the
  flags, in the order of the map; a vector whose length differs from the map's is a
  \<open>StateEncodingError\<close>.
\<close>

definition decode_state :: "encoded_state \<Rightarrow> expr list \<Rightarrow> error + FluentState" where
  "decode_state state fluent_map =
     (if length state \<noteq> length fluent_map then Inl StateEncodingError
      else Inr \<lparr>pos = map snd (filter fst (zip state fluent_map)),
                neg = map snd (filter (\<lambda>x. \<not> fst x) (zip state fluent_map))\<rparr>)"

subsection \<open>Grounded actions\<close>

text \<open>
  Modelled from the spec: \<^verbatim>\<open>aimacode.planning.Action\<close>: a name with its arguments and four
  lists of literals. The constructor takes the action's expression, the pair of precondition
  lists and the pair of effect lists.
\<close>

record action =
  name :: string
  args :: "expr list"
  precond_pos :: "expr list"
  precond_neg :: "expr list"
  effect_add :: "expr list"
  effect_rem :: "expr list"

fun Action :: "expr \<Rightarrow> expr list \<times> expr list \<Rightarrow> expr list \<times> expr list \<Rightarrow> action" where
  "Action (Expr opr as) (pp, pn) (ea, er) =
     \<lparr>name = opr, args = as, precond_pos = pp, precond_neg = pn,
      effect_add = ea, effect_rem = er\<rparr>"

subsection \<open>The problem\<close>

record AirCargoProblem =
  state_map :: "expr list"
  initial_state_TF :: encoded_state
  goal :: "expr list"
  cargos :: "string list"
  planes :: "string list"
  airports :: "string list"
  actions_list :: "action list"

text \<open>
  The bodies of the three grounding loops. The name of a Load or Unload action is built
  from the cargo and the plane only, as \<^verbatim>\<open>"Load({}, {})".format(c, p)\<close> does.
\<close>

definition load :: "string \<Rightarrow> string \<Rightarrow> string \<Rightarrow> action" where
  "load c p ap =
     (let precond_pos = [At p ap, At c ap];
          precond_neg = [In c p];
          effect_add = [In c p];
          effect_rem = [At c ap]
      in Action (Expr ''Load'' [Symbol c, Symbol p]) (precond_pos, precond_neg)
           (effect_add, effect_rem))"

definition unload :: "string \<Rightarrow> string \<Rightarrow> string \<Rightarrow> action" where
  "unload c p ap =
     (let precond_pos = [In c p, At p ap];
          precond_neg = [At c ap];
          effect_add = [At c ap];
          effect_rem = [In c p]
      in Action (Expr ''Unload'' [Symbol c, Symbol p]) (precond_pos, precond_neg)
           (effect_add, effect_rem))"

definition fly :: "string \<Rightarrow> string \<Rightarrow> string \<Rightarrow> action" where
  "fly p fr to =
     (let precond_pos = [At p fr];
          precond_neg = [];
          effect_add = [At p to];
          effect_rem = [At p fr]
      in Action (Expr ''Fly'' [Symbol p, Symbol fr, Symbol to]) (precond_pos, precond_neg)
           (effect_add, effect_rem))"

text \<open>The loops: airport, plane, cargo for Load and Unload; from, to, plane for Fly.\<close>

definition load_actions :: "AirCargoProblem \<Rightarrow> action list" where
  "load_actions self =
     concat (map (\<lambda>ap. concat (map (\<lambda>p. map (\<lambda>c. load c p ap) (cargos self)) (planes self)))
       (airports self))"

definition unload_actions :: "AirCargoProblem \<Rightarrow> action list" where
  "unload_actions self =
     concat (map (\<lambda>ap. concat (map (\<lambda>p. map (\<lambda>c. unload c p ap) (cargos self)) (planes self)))
       (airports self))"

definition fly_actions :: "AirCargoProblem \<Rightarrow> action list" where
  "fly_actions self =
     concat (map (\<lambda>fr. concat (map (\<lambda>to. if fr \<noteq> to then map (\<lambda>p. fly p fr to) (planes self)
                                           else []) (airports self)))
       (airports self))"

definition get_actions :: "AirCargoProblem \<Rightarrow> action list" where
  "get_actions self = load_actions self @ unload_actions self @ fly_actions self"

text \<open>
  The constructor: the state map is the initial true literals followed by the initial false
  literals, the initial state is its encoding, and the grounded actions are computed once,
  from the object lists already stored.
\<close>

definition AirCargoProblem_init ::
  "string list \<Rightarrow> string list \<Rightarrow> string list \<Rightarrow> FluentState \<Rightarrow> expr list \<Rightarrow> AirCargoProblem" where
  "AirCargoProblem_init cs ps aps initial g =
     (let smap = pos initial @ neg initial;
          self = \<lparr>state_map = smap, initial_state_TF = encode_state initial smap, goal = g,
                  cargos = cs, planes = ps, airports = aps, actions_list = []\<rparr>
      in self\<lparr>actions_list := get_actions self\<rparr>)"

subsection \<open>The transition model\<close>

text \<open>The loop of \<^verbatim>\<open>actions\<close> over the grounded actions, appending the applicable ones.\<close>

fun actions_loop :: "expr set \<Rightarrow> expr set \<Rightarrow> action list \<Rightarrow> action list \<Rightarrow> action list" where
  "actions_loop fluents_pos_set fluents_neg_set [] possible_actions = possible_actions"
| "actions_loop fluents_pos_set fluents_neg_set (a # rest) possible_actions =
     (let a_pos_set = set (precond_pos a);
          a_neg_set = set (precond_neg a)
      in if a_neg_set \<subseteq> fluents_neg_set \<and> a_pos_set \<subseteq> fluents_pos_set
         then actions_loop fluents_pos_set fluents_neg_set rest (possible_actions @ [a])
         else actions_loop fluents_pos_set fluents_neg_set rest possible_actions)"

definition actions :: "AirCargoProblem \<Rightarrow> encoded_state \<Rightarrow> error + action list" where
  "actions self state =
     (case decode_state state (state_map self) of
        Inl e \<Rightarrow> Inl e
      | Inr fluents \<Rightarrow>
          Inr (actions_loop (set (pos fluents)) (set (neg fluents)) (actions_list self) []))"

definition result :: "AirCargoProblem \<Rightarrow> encoded_state \<Rightarrow> action \<Rightarrow> error + encoded_state" where
  "result self state a =
     (case decode_state state (state_map self) of
        Inl e \<Rightarrow> Inl e
      | Inr fluents \<Rightarrow>
          (let pos_list = filter (\<lambda>x. x \<notin> set (effect_rem a)) (pos fluents) @ effect_add a;
               neg_list = filter (\<lambda>x. x \<notin> set (effect_add a)) (neg fluents) @ effect_rem a;
               new_state = \<lparr>pos = pos_list, neg = neg_list\<rparr>
           in Inr (encode_state new_state (state_map self))))"

text \<open>
  Modelled from the spec: the clause store \<^verbatim>\<open>aimacode.logic.PropKB\<close> and
  \<^verbatim>\<open>FluentState.pos_sentence\<close>. The sentence of a sparse state is the conjunction of its
  true literals, kept here as the list of its conjuncts; telling it to the knowledge base
  adds each conjunct to the clauses.
\<close>

record PropKB =
  clauses :: "expr list"

definition PropKB_init :: PropKB where
  "PropKB_init = \<lparr>clauses = []\<rparr>"

definition pos_sentence :: "FluentState \<Rightarrow> expr list" where
  "pos_sentence fs = pos fs"

definition tell :: "PropKB \<Rightarrow> expr list \<Rightarrow> PropKB" where
  "tell kb sentence = kb\<lparr>clauses := clauses kb @ sentence\<rparr>"

text \<open>The loop of \<^verbatim>\<open>goal_test\<close>: the first goal clause missing from the store ends it.\<close>

fun goal_loop :: "PropKB \<Rightarrow> expr list \<Rightarrow> bool" where
  "goal_loop kb [] = True"
| "goal_loop kb (clause # rest) =
     (if clause \<notin> set (clauses kb) then False else goal_loop kb rest)"

definition goal_test :: "AirCargoProblem \<Rightarrow> encoded_state \<Rightarrow> error + bool" where
  "goal_test self state =
     (case decode_state state (state_map self) of
        Inl e \<Rightarrow> Inl e
      | Inr fluents \<Rightarrow>
          (let kb = tell PropKB_init (pos_sentence fluents)
           in Inr (goal_loop kb (goal self))))"

text \<open>
  The direct subset check that the specification reduces \<^verbatim>\<open>goal_test\<close> to: every goal
  literal is among the true literals of the decoded state. It follows the specification's
  words, not the source, and is what \<^verbatim>\<open>goal_test\<close> is compared with below.
\<close>

definition goal_test_direct :: "AirCargoProblem \<Rightarrow> encoded_state \<Rightarrow> error + bool" where
  "goal_test_direct self state =
     (case decode_state state (state_map self) of
        Inl e \<Rightarrow> Inl e
      | Inr fluents \<Rightarrow> Inr (set (goal self) \<subseteq> set (pos fluents)))"

subsection \<open>Heuristics\<close>

text \<open>Modelled from the spec: the search node, of which only the wrapped state is read.\<close>

record Node =
  state :: encoded_state

definition h_1 :: "AirCargoProblem \<Rightarrow> Node \<Rightarrow> nat" where
  "h_1 self node = (let h_const = 1 in h_const)"

fun h_loop :: "FluentState \<Rightarrow> expr list \<Rightarrow> nat \<Rightarrow> nat" where
  "h_loop x [] count = count"
| "h_loop x (g # rest) count =
     (if g \<in> set (neg x) then h_loop x rest (count + 1) else h_loop x rest count)"

definition h_ignore_preconditions :: "AirCargoProblem \<Rightarrow> Node \<Rightarrow> error + nat" where
  "h_ignore_preconditions self node =
     (case decode_state (state node) (state_map self) of
        Inl e \<Rightarrow> Inl e
      | Inr x \<Rightarrow> Inr (h_loop x (goal self) 0))"

subsection \<open>The first sample problem\<close>

definition air_cargo_p1 :: AirCargoProblem where
  "air_cargo_p1 =
     (let cargoes = [''C1'', ''C2''];
          planes = [''P1'', ''P2''];
          airports = [''JFK'', ''SFO''];
          pos = [At ''C1'' ''SFO'', At ''C2'' ''JFK'', At ''P1'' ''SFO'', At ''P2'' ''JFK''];
          neg = [At ''C2'' ''SFO'', In ''C2'' ''P1'', In ''C2'' ''P2'', At ''C1'' ''JFK'',
                 In ''C1'' ''P1'', In ''C1'' ''P2'', At ''P1'' ''JFK'', At ''P2'' ''SFO''];
          init = \<lparr>pos = pos, neg = neg\<rparr>;
          goal = [At ''C1'' ''JFK'', At ''C2'' ''SFO'']
      in AirCargoProblem_init cargoes planes airports init goal)"

text \<open>
  A problem as the constructor accepts it whose initial state names one literal only: the
  plane is at SFO, and nothing is said of JFK, so that \<open>At(P1, JFK)\<close> has no position in
  the state map.
\<close>

definition one_plane_problem :: AirCargoProblem where
  "one_plane_problem =
     AirCargoProblem_init [] [''P1''] [''SFO'', ''JFK'']
       \<lparr>pos = [At ''P1'' ''SFO''], neg = []\<rparr> [At ''P1'' ''JFK'']"

text \<open>
  The states that a search reaches: the initial state, and every result of an action that
  \<^verbatim>\<open>actions\<close> offers in a reached state.
\<close>

inductive reachable :: "AirCargoProblem \<Rightarrow> encoded_state \<Rightarrow> bool" for self where
  reachable_init: "reachable self (initial_state_TF self)"
| reachable_step: "reachable self s \<Longrightarrow> actions self s = Inr acts \<Longrightarrow> a \<in> set acts \<Longrightarrow>
     result self s a = Inr s' \<Longrightarrow> reachable self s'"

code_pred reachable .

section \<open>Properties\<close>

subsection \<open>The constructor and the sample problems, evaluated\<close>

lemma init_fields:
  "state_map (AirCargoProblem_init cs ps aps init g) = pos init @ neg init"
  "initial_state_TF (AirCargoProblem_init cs ps aps init g) = encode_state init (pos init @ neg init)"
  "goal (AirCargoProblem_init cs ps aps init g) = g"
  "cargos (AirCargoProblem_init cs ps aps init g) = cs"
  "planes (AirCargoProblem_init cs ps aps init g) = ps"
  "airports (AirCargoProblem_init cs ps aps init g) = aps"
  by (simp_all add: AirCargoProblem_init_def Let_def)

lemma get_actions_objects:
  assumes "cargos self = cargos self'" "planes self = planes self'" "airports self = airports self'"
  shows "get_actions self = get_actions self'"
  by (simp add: get_actions_def load_actions_def unload_actions_def fly_actions_def assms
      cong: if_cong)

lemma actions_list_init:
  "actions_list (AirCargoProblem_init cs ps aps init g) =
     get_actions (AirCargoProblem_init cs ps aps init g)"
proof -
  have "actions_list (AirCargoProblem_init cs ps aps init g) =
      get_actions \<lparr>state_map = pos init @ neg init,
        initial_state_TF = encode_state init (pos init @ neg init), goal = g,
        cargos = cs, planes = ps, airports = aps, actions_list = []\<rparr>"
    by (simp add: AirCargoProblem_init_def Let_def)
  also have "\<dots> = get_actions (AirCargoProblem_init cs ps aps init g)"
    by (rule get_actions_objects) (simp_all add: init_fields)
  finally show ?thesis .
qed

lemma p1_init: "air_cargo_p1 = AirCargoProblem_init [''C1'', ''C2''] [''P1'', ''P2''] [''JFK'', ''SFO'']
   \<lparr>pos = [At ''C1'' ''SFO'', At ''C2'' ''JFK'', At ''P1'' ''SFO'', At ''P2'' ''JFK''],
    neg = [At ''C2'' ''SFO'', In ''C2'' ''P1'', In ''C2'' ''P2'', At ''C1'' ''JFK'',
                 In ''C1'' ''P1'', In ''C1'' ''P2'', At ''P1'' ''JFK'', At ''P2'' ''SFO'']\<rparr>
    [At ''C1'' ''JFK'', At ''C2'' ''SFO'']"
  by (simp add: air_cargo_p1_def Let_def)

lemma p1_objects:
  "airports air_cargo_p1 = [''JFK'', ''SFO'']"
  "planes air_cargo_p1 = [''P1'', ''P2'']"
  "cargos air_cargo_p1 = [''C1'', ''C2'']"
  by (simp_all add: p1_init init_fields)

lemma p1_state_map:
  "state_map air_cargo_p1 =
     [At ''C1'' ''SFO'', At ''C2'' ''JFK'', At ''P1'' ''SFO'', At ''P2'' ''JFK'',
      At ''C2'' ''SFO'', In ''C2'' ''P1'', In ''C2'' ''P2'', At ''C1'' ''JFK'',
      In ''C1'' ''P1'', In ''C1'' ''P2'', At ''P1'' ''JFK'', At ''P2'' ''SFO'']"
  by (simp add: p1_init init_fields)

lemma p1_goal: "goal air_cargo_p1 = [At ''C1'' ''JFK'', At ''C2'' ''SFO'']"
  by (simp add: p1_init init_fields)

lemma p1_initial:
  "initial_state_TF air_cargo_p1 =
     [True, True, True, True, False, False, False, False, False, False, False, False]"
  by (simp add: p1_init init_fields encode_state_def At_def In_def Symbol_def)

lemma p1_distinct: "distinct (state_map air_cargo_p1)"
  by (simp add: p1_state_map At_def In_def Symbol_def)

lemma p1_decode_initial:
  "decode_state (initial_state_TF air_cargo_p1) (state_map air_cargo_p1) =
     Inr \<lparr>pos = [At ''C1'' ''SFO'', At ''C2'' ''JFK'', At ''P1'' ''SFO'', At ''P2'' ''JFK''],
          neg = [At ''C2'' ''SFO'', In ''C2'' ''P1'', In ''C2'' ''P2'', At ''C1'' ''JFK'',
                 In ''C1'' ''P1'', In ''C1'' ''P2'', At ''P1'' ''JFK'', At ''P2'' ''SFO'']\<rparr>"
  by (simp add: p1_initial p1_state_map decode_state_def)

lemma p1_decode2:
  "decode_state [False, True, False, True, False, False, False, False, True, False, True, False]
      (state_map air_cargo_p1) =
      Inr \<lparr>pos = [At ''C2'' ''JFK'', At ''P2'' ''JFK'', In ''C1'' ''P1'', At ''P1'' ''JFK''],
           neg = [At ''C1'' ''SFO'', At ''P1'' ''SFO'', At ''C2'' ''SFO'', In ''C2'' ''P1'',
                  In ''C2'' ''P2'', At ''C1'' ''JFK'', In ''C1'' ''P2'', At ''P2'' ''SFO'']\<rparr>"
  by (simp add: p1_state_map decode_state_def)

lemmas p1_eval = p1_state_map p1_goal result_def goal_test_def decode_state_def encode_state_def
  Let_def load_def unload_def fly_def At_def In_def Symbol_def

lemma p1_actions_initial:
  "actions air_cargo_p1 (initial_state_TF air_cargo_p1) =
     Inr [load ''C2'' ''P2'' ''JFK'', load ''C1'' ''P1'' ''SFO'',
          fly ''P2'' ''JFK'' ''SFO'', fly ''P1'' ''SFO'' ''JFK'']"
  by code_simp

lemma p1_member:
  "load ''C1'' ''P1'' ''SFO'' \<in> set [load ''C2'' ''P2'' ''JFK'', load ''C1'' ''P1'' ''SFO'',
          fly ''P2'' ''JFK'' ''SFO'', fly ''P1'' ''SFO'' ''JFK'']"
  "fly ''P1'' ''SFO'' ''JFK'' \<in> set [load ''C2'' ''P2'' ''JFK'', load ''C1'' ''P1'' ''SFO'',
          fly ''P2'' ''JFK'' ''SFO'', fly ''P1'' ''SFO'' ''JFK'']"
  by simp_all

lemma p1_grounded:
  "load ''C1'' ''P1'' ''SFO'' \<in> set (actions_list air_cargo_p1)"
  "fly ''P1'' ''SFO'' ''JFK'' \<in> set (actions_list air_cargo_p1)"
  "unload ''C1'' ''P1'' ''JFK'' \<in> set (actions_list air_cargo_p1)"
  "load ''C1'' ''P1'' ''JFK'' \<in> set (actions_list air_cargo_p1)"
  unfolding p1_init actions_list_init
  by (simp_all add: get_actions_def load_actions_def unload_actions_def fly_actions_def init_fields)

lemma p1_step1:
  "result air_cargo_p1 [True, True, True, True, False, False, False, False, False, False, False, False]
     (load ''C1'' ''P1'' ''SFO'') =
   Inr [False, True, True, True, False, False, False, False, True, False, False, False]"
  by (simp add: p1_eval)

lemma p1_step2:
  "result air_cargo_p1 [False, True, True, True, False, False, False, False, True, False, False, False]
     (fly ''P1'' ''SFO'' ''JFK'') =
   Inr [False, True, False, True, False, False, False, False, True, False, True, False]"
  by (simp add: p1_eval)

lemma p1_step3:
  "result air_cargo_p1 [False, True, False, True, False, False, False, False, True, False, True, False]
     (unload ''C1'' ''P1'' ''JFK'') =
   Inr [False, True, False, True, False, False, False, True, False, False, True, False]"
  by (simp add: p1_eval)

lemma p1_step4:
  "result air_cargo_p1 [False, True, False, True, False, False, False, True, False, False, True, False]
     (load ''C2'' ''P2'' ''JFK'') =
   Inr [False, False, False, True, False, False, True, True, False, False, True, False]"
  by (simp add: p1_eval)

lemma p1_step5:
  "result air_cargo_p1 [False, False, False, True, False, False, True, True, False, False, True, False]
     (fly ''P2'' ''JFK'' ''SFO'') =
   Inr [False, False, False, False, False, False, True, True, False, False, True, True]"
  by (simp add: p1_eval)

lemma p1_step6:
  "result air_cargo_p1 [False, False, False, False, False, False, True, True, False, False, True, True]
     (unload ''C2'' ''P2'' ''SFO'') =
   Inr [False, False, False, False, True, False, False, True, False, False, True, True]"
  by (simp add: p1_eval)

lemma p1_goal_reached:
  "goal_test air_cargo_p1
     [False, False, False, False, True, False, False, True, False, False, True, True] = Inr True"
  by (simp add: p1_eval tell_def PropKB_init_def pos_sentence_def)

lemma opp_fields:
  "state_map one_plane_problem = [At ''P1'' ''SFO'']"
  "initial_state_TF one_plane_problem = [True]"
  "actions_list one_plane_problem = [fly ''P1'' ''SFO'' ''JFK'', fly ''P1'' ''JFK'' ''SFO'']"
  by (simp_all add: one_plane_problem_def AirCargoProblem_init_def Let_def encode_state_def
      get_actions_def load_actions_def unload_actions_def fly_actions_def)

subsection \<open>The codec\<close>

lemma decode_state_Inr:
  "decode_state s m = Inr fluents \<longleftrightarrow>
     length s = length m \<and>
     fluents = \<lparr>pos = map snd (filter fst (zip s m)),
                neg = map snd (filter (\<lambda>x. \<not> fst x) (zip s m))\<rparr>"
  by (auto simp: decode_state_def)

lemma length_encode_state [simp]: "length (encode_state fs m) = length m"
  by (simp add: encode_state_def)

lemma zip_flags_pos: "map snd (filter fst (zip (map f m) m)) = filter f m"
  by (induction m) simp_all

lemma zip_flags_neg: "map snd (filter (\<lambda>x. \<not> fst x) (zip (map f m) m)) = filter (\<lambda>x. \<not> f x) m"
  by (induction m) simp_all

lemma decode_flags:
  "decode_state (map f m) m = Inr \<lparr>pos = filter f m, neg = filter (\<lambda>x. \<not> f x) m\<rparr>"
  by (simp add: decode_state_def zip_flags_pos zip_flags_neg)

lemma decode_encode:
  "decode_state (encode_state fs m) m =
     Inr \<lparr>pos = filter (\<lambda>x. x \<in> set (pos fs)) m, neg = filter (\<lambda>x. x \<notin> set (pos fs)) m\<rparr>"
  by (simp add: decode_state_def encode_state_def zip_flags_pos zip_flags_neg)

lemma decoded_subset:
  "set (map snd (filter P (zip s m))) \<subseteq> set m"
  by (auto dest: set_zip_rightD)

lemma decoded_cover:
  assumes "decode_state s m = Inr fluents"
  shows "set (pos fluents) \<union> set (neg fluents) = set m"
proof -
  from assms have len: "length s = length m" by (simp add: decode_state_Inr)
  have "set (map snd (filter fst (zip s m))) \<union> set (map snd (filter (\<lambda>x. \<not> fst x) (zip s m)))
      = snd ` set (zip s m)"
    by auto
  also have "\<dots> = set m" using len by (metis map_snd_zip set_map)
  finally show ?thesis using assms by (simp add: decode_state_Inr)
qed

lemma encode_decoded:
  assumes "distinct m" "length s = length m"
  shows "map (\<lambda>x. x \<in> set (map snd (filter fst (zip s m)))) m = s"
  using assms(2,1)
proof (induction s m rule: list_induct2)
  case Nil
  then show ?case by simp
next
  case (Cons b s x m)
  have notin: "x \<notin> set (map snd (filter fst (zip s m)))"
    using Cons.prems decoded_subset[of fst s m] by auto
  have "map (\<lambda>y. y \<in> set (map snd (filter fst (zip (b # s) (x # m))))) m =
        map (\<lambda>y. y \<in> set (map snd (filter fst (zip s m)))) m"
    using Cons.prems by (intro map_cong) auto
  with Cons notin show ?case by auto
qed

lemma state_as_encoding:
  assumes "distinct m" "decode_state s m = Inr fluents"
  shows "s = map (\<lambda>x. x \<in> set (pos fluents)) m"
  using assms encode_decoded[of m s] by (simp add: decode_state_Inr)

lemma decoded_disjoint:
  assumes "distinct m" "decode_state s m = Inr fluents"
  shows "set (pos fluents) \<inter> set (neg fluents) = {}"
proof -
  from assms have len: "length s = length m" by (simp add: decode_state_Inr)
  have "distinct (map snd (zip s m))" using assms(1) len by (simp add: map_snd_zip)
  then have "set (map snd (filter fst (zip s m))) \<inter>
             set (map snd (filter (\<lambda>x. \<not> fst x) (zip s m))) = {}"
    by (induction "zip s m" arbitrary: s m) (auto simp: distinct_map inj_on_def)
  then show ?thesis using assms by (simp add: decode_state_Inr)
qed

lemma result_encoded:
  assumes "decode_state s (state_map self) = Inr fluents"
  shows "result self s a =
     Inr (map (\<lambda>x. x \<in> (set (pos fluents) - set (effect_rem a)) \<union> set (effect_add a))
            (state_map self))"
  using assms by (simp add: result_def encode_state_def Let_def set_diff_eq)

lemma result_is_encoding:
  assumes "result self s a = Inr s'"
  shows "\<exists>fs. s' = encode_state fs (state_map self)"
  using assms by (auto simp: result_def Let_def split: sum.splits)

subsection \<open>Applicable actions\<close>

lemma actions_loop_filter:
  "actions_loop P N as acc =
     acc @ filter (\<lambda>a. set (precond_neg a) \<subseteq> N \<and> set (precond_pos a) \<subseteq> P) as"
  by (induction as arbitrary: acc) (simp_all add: Let_def)

lemma actions_Inr:
  assumes "actions self s = Inr acts"
  obtains fluents where "decode_state s (state_map self) = Inr fluents"
    and "acts = filter (\<lambda>a. set (precond_neg a) \<subseteq> set (neg fluents) \<and>
                            set (precond_pos a) \<subseteq> set (pos fluents)) (actions_list self)"
  using assms by (auto simp: actions_def actions_loop_filter split: sum.splits)

lemma actions_offers:
  assumes "decode_state s (state_map self) = Inr fluents"
    and "a \<in> set (actions_list self)"
    and "set (precond_neg a) \<subseteq> set (neg fluents)"
    and "set (precond_pos a) \<subseteq> set (pos fluents)"
  shows "\<exists>acts. actions self s = Inr acts \<and> a \<in> set acts"
  using assms by (simp add: actions_def actions_loop_filter)

text \<open>
  C2: for an encoded state of the state map's length, \<^verbatim>\<open>actions\<close> returns exactly the
  grounded actions of \<open>actions_list\<close>, in their order, whose negative preconditions all lie
  in the decoded false literals and whose positive preconditions all lie in the decoded true
  literals, both compared as sets.
\<close>

theorem actions_exact:
  assumes "length s = length (state_map self)"
  shows "\<exists>fluents. decode_state s (state_map self) = Inr fluents \<and>
           actions self s =
             Inr (filter (\<lambda>a. set (precond_neg a) \<subseteq> set (neg fluents) \<and>
                              set (precond_pos a) \<subseteq> set (pos fluents)) (actions_list self))"
  using assms by (simp add: actions_def decode_state_def actions_loop_filter)

theorem actions_exact_witness:
  "length (initial_state_TF air_cargo_p1) = length (state_map air_cargo_p1) \<and>
   (\<exists>fluents. decode_state (initial_state_TF air_cargo_p1) (state_map air_cargo_p1) = Inr fluents \<and>
      actions air_cargo_p1 (initial_state_TF air_cargo_p1) =
        Inr (filter (\<lambda>a. set (precond_neg a) \<subseteq> set (neg fluents) \<and>
                         set (precond_pos a) \<subseteq> set (pos fluents)) (actions_list air_cargo_p1)))"
proof -
  have len: "length (initial_state_TF air_cargo_p1) = length (state_map air_cargo_p1)"
    by (simp add: p1_initial p1_state_map)
  show ?thesis using len actions_exact[OF len] by simp
qed

text \<open>
  C6, as the code has it: in the initial state of \<open>air_cargo_p1\<close> (C1 and P1 at SFO, C2 and
  P2 at JFK) \<^verbatim>\<open>actions\<close> returns exactly Load(C2, P2, JFK), Load(C1, P1, SFO),
  Fly(P2, JFK, SFO) and Fly(P1, SFO, JFK), in this order. Each plane can only leave the
  airport it is at; every other Load, every Unload and every other Fly is left out.
\<close>

theorem initial_actions_p1:
  "actions air_cargo_p1 (initial_state_TF air_cargo_p1) =
     Inr [load ''C2'' ''P2'' ''JFK'', load ''C1'' ''P1'' ''SFO'',
          fly ''P2'' ''JFK'' ''SFO'', fly ''P1'' ''SFO'' ''JFK'']"
  by (rule p1_actions_initial)

text \<open>
  C6 as stated lists Fly(P1, JFK, SFO) among the applicable actions. It is a grounded action
  of the problem, but its precondition At(P1, JFK) is false initially, and \<^verbatim>\<open>actions\<close>
  does not return it.
\<close>

theorem initial_actions_p1_counterexample:
  "fly ''P1'' ''JFK'' ''SFO'' \<in> set (actions_list air_cargo_p1) \<and>
   actions air_cargo_p1 (initial_state_TF air_cargo_p1) =
     Inr [load ''C2'' ''P2'' ''JFK'', load ''C1'' ''P1'' ''SFO'',
          fly ''P2'' ''JFK'' ''SFO'', fly ''P1'' ''SFO'' ''JFK''] \<and>
   fly ''P1'' ''JFK'' ''SFO'' \<notin>
     set [load ''C2'' ''P2'' ''JFK'', load ''C1'' ''P1'' ''SFO'',
          fly ''P2'' ''JFK'' ''SFO'', fly ''P1'' ''SFO'' ''JFK'']"
proof -
  have "fly ''P1'' ''JFK'' ''SFO'' \<in> set (get_actions air_cargo_p1)"
    by (simp add: get_actions_def fly_actions_def p1_objects)
  then have "fly ''P1'' ''JFK'' ''SFO'' \<in> set (actions_list air_cargo_p1)"
    by (simp add: p1_init actions_list_init)
  moreover have "fly ''P1'' ''JFK'' ''SFO'' \<notin>
     set [load ''C2'' ''P2'' ''JFK'', load ''C1'' ''P1'' ''SFO'',
          fly ''P2'' ''JFK'' ''SFO'', fly ''P1'' ''SFO'' ''JFK'']"
    by (simp add: load_def fly_def Symbol_def)
  ultimately show ?thesis using p1_actions_initial by blast
qed

subsection \<open>The number of grounded actions\<close>

lemma length_nested:
  "length (concat (map (\<lambda>ap. concat (map (\<lambda>p. map (\<lambda>c. f c p ap) cs) ps)) aps)) =
     length aps * length ps * length cs"
  by (simp add: length_concat comp_def sum_list_triv)

lemma length_filter_neq:
  assumes "distinct xs" "x \<in> set xs"
  shows "length (filter (\<lambda>y. x \<noteq> y) xs) = length xs - 1"
  using assms
proof (induction xs)
  case Nil
  then show ?case by simp
next
  case (Cons a xs)
  show ?case
  proof (cases "x = a")
    case True
    with Cons.prems have "x \<notin> set xs" by simp
    then have "filter (\<lambda>y. x \<noteq> y) xs = xs" by (induction xs) auto
    with True show ?thesis by simp
  next
    case False
    with Cons.prems have "x \<in> set xs" "distinct xs" by simp_all
    with Cons.IH have "length (filter (\<lambda>y. x \<noteq> y) xs) = length xs - 1" by simp
    moreover from \<open>x \<in> set xs\<close> have "0 < length xs" by (cases xs) simp_all
    ultimately show ?thesis using False by simp
  qed
qed

lemma length_fly_row:
  "length (concat (map (\<lambda>to. if fr \<noteq> to then map (\<lambda>p. f p fr to) ps else []) aps)) =
     length (filter (\<lambda>to. fr \<noteq> to) aps) * length ps"
  by (induction aps) simp_all

lemma length_fly_rows:
  "length (concat (map (\<lambda>fr. concat (map (\<lambda>to. if fr \<noteq> to then map (\<lambda>p. f p fr to) ps else [])
       aps)) xs)) =
     sum_list (map (\<lambda>fr. length (filter (\<lambda>to. fr \<noteq> to) aps) * length ps) xs)"
  by (induction xs) (simp_all add: length_fly_row)

lemma length_fly_actions:
  assumes "distinct (airports self)"
  shows "length (fly_actions self) =
     length (airports self) * (length (airports self) - 1) * length (planes self)"
proof -
  have "length (fly_actions self) =
      sum_list (map (\<lambda>fr. length (filter (\<lambda>to. fr \<noteq> to) (airports self)) * length (planes self))
        (airports self))"
    unfolding fly_actions_def by (rule length_fly_rows)
  also have "\<dots> = sum_list (map (\<lambda>fr. (length (airports self) - 1) * length (planes self))
        (airports self))"
    using assms by (intro arg_cong[where f=sum_list] map_cong) (simp_all add: length_filter_neq)
  also have "\<dots> = length (airports self) * (length (airports self) - 1) * length (planes self)"
    by (simp add: sum_list_triv)
  finally show ?thesis .
qed

text \<open>
  C4: with A distinct airports, P planes and C cargos, \<^verbatim>\<open>get_actions\<close> returns
  A * P * C * 2 + A * (A - 1) * P grounded actions; the sample problem with two of each
  has 20.
\<close>

theorem get_actions_count:
  assumes "distinct (airports self)"
  shows "length (get_actions self) =
     length (airports self) * length (planes self) * length (cargos self) * 2 +
     length (airports self) * (length (airports self) - 1) * length (planes self)"
  using length_fly_actions[OF assms]
  by (simp add: get_actions_def load_actions_def unload_actions_def length_nested)

theorem get_actions_count_witness:
  "distinct (airports air_cargo_p1) \<and> length (airports air_cargo_p1) = 2 \<and>
   length (planes air_cargo_p1) = 2 \<and> length (cargos air_cargo_p1) = 2 \<and>
   length (get_actions air_cargo_p1) = 20"
proof -
  have d: "distinct (airports air_cargo_p1)" by (simp add: p1_objects)
  show ?thesis using d get_actions_count[OF d] by (simp add: p1_objects)
qed

subsection \<open>The effect of an action\<close>

lemma grounded_effects_disjoint:
  assumes "a \<in> set (get_actions self)"
  shows "set (effect_add a) \<inter> set (effect_rem a) = {}"
  using assms
  by (auto simp: get_actions_def load_actions_def unload_actions_def fly_actions_def
      load_def unload_def fly_def At_def In_def Symbol_def split: if_splits)

text \<open>
  C1, as the code has it: when the state map has no repeated literal and every add and
  delete effect of the grounded action is a literal of the state map, the result decodes to
  the true literals (old true literals minus delete effects) plus add effects, and to the
  false literals (old false literals minus add effects) plus delete effects, as sets.
\<close>

theorem result_effects:
  assumes "distinct (state_map self)"
    and "decode_state s (state_map self) = Inr fluents"
    and "a \<in> set (get_actions self)"
    and "set (effect_add a) \<union> set (effect_rem a) \<subseteq> set (state_map self)"
  shows "\<exists>s' fluents'. result self s a = Inr s' \<and>
           decode_state s' (state_map self) = Inr fluents' \<and>
           set (pos fluents') = (set (pos fluents) - set (effect_rem a)) \<union> set (effect_add a) \<and>
           set (neg fluents') = (set (neg fluents) - set (effect_add a)) \<union> set (effect_rem a)"
proof -
  let ?m = "state_map self"
  let ?T = "(set (pos fluents) - set (effect_rem a)) \<union> set (effect_add a)"
  let ?s' = "map (\<lambda>x. x \<in> ?T) ?m"
  let ?f' = "\<lparr>pos = filter (\<lambda>x. x \<in> ?T) ?m, neg = filter (\<lambda>x. x \<notin> ?T) ?m\<rparr>"
  have cover: "set (pos fluents) \<union> set (neg fluents) = set ?m"
    using assms(2) by (rule decoded_cover)
  have disj: "set (pos fluents) \<inter> set (neg fluents) = {}"
    using assms(1,2) by (rule decoded_disjoint)
  have eff: "set (effect_add a) \<inter> set (effect_rem a) = {}"
    using assms(3) by (rule grounded_effects_disjoint)
  have res: "result self s a = Inr ?s'"
    using assms(2) by (rule result_encoded)
  have dec: "decode_state ?s' ?m = Inr ?f'"
    by (simp add: decode_state_def zip_flags_pos zip_flags_neg)
  have p: "set (pos ?f') = ?T"
    using cover assms(4) by auto
  have n: "set (neg ?f') = (set (neg fluents) - set (effect_add a)) \<union> set (effect_rem a)"
    using cover disj eff assms(4) by auto
  from res dec p n show ?thesis by blast
qed

theorem result_effects_witness:
  "distinct (state_map air_cargo_p1) \<and>
   decode_state (initial_state_TF air_cargo_p1) (state_map air_cargo_p1) =
     Inr \<lparr>pos = [At ''C1'' ''SFO'', At ''C2'' ''JFK'', At ''P1'' ''SFO'', At ''P2'' ''JFK''],
          neg = [At ''C2'' ''SFO'', In ''C2'' ''P1'', In ''C2'' ''P2'', At ''C1'' ''JFK'',
                 In ''C1'' ''P1'', In ''C1'' ''P2'', At ''P1'' ''JFK'', At ''P2'' ''SFO'']\<rparr> \<and>
   load ''C1'' ''P1'' ''SFO'' \<in> set (get_actions air_cargo_p1) \<and>
   set (effect_add (load ''C1'' ''P1'' ''SFO'')) \<union> set (effect_rem (load ''C1'' ''P1'' ''SFO''))
     \<subseteq> set (state_map air_cargo_p1) \<and>
   (\<exists>s' fluents'. result air_cargo_p1 (initial_state_TF air_cargo_p1) (load ''C1'' ''P1'' ''SFO'') = Inr s' \<and>
      decode_state s' (state_map air_cargo_p1) = Inr fluents' \<and>
      set (pos fluents') = {At ''C2'' ''JFK'', At ''P1'' ''SFO'', At ''P2'' ''JFK'', In ''C1'' ''P1''} \<and>
      set (neg fluents') = {At ''C2'' ''SFO'', In ''C2'' ''P1'', In ''C2'' ''P2'', At ''C1'' ''JFK'',
                 In ''C1'' ''P2'', At ''P1'' ''JFK'', At ''P2'' ''SFO'', At ''C1'' ''SFO''})"
proof -
  have h3: "load ''C1'' ''P1'' ''SFO'' \<in> set (get_actions air_cargo_p1)"
    by (simp add: get_actions_def load_actions_def p1_objects)
  have h4: "set (effect_add (load ''C1'' ''P1'' ''SFO'')) \<union> set (effect_rem (load ''C1'' ''P1'' ''SFO''))
     \<subseteq> set (state_map air_cargo_p1)"
    by (simp add: p1_state_map load_def)
  from result_effects[OF p1_distinct p1_decode_initial h3 h4]
  obtain s' fluents' where
    r: "result air_cargo_p1 (initial_state_TF air_cargo_p1) (load ''C1'' ''P1'' ''SFO'') = Inr s'"
      "decode_state s' (state_map air_cargo_p1) = Inr fluents'"
      "set (pos fluents') = (set [At ''C1'' ''SFO'', At ''C2'' ''JFK'', At ''P1'' ''SFO'', At ''P2'' ''JFK''] 
          - set (effect_rem (load ''C1'' ''P1'' ''SFO''))) \<union> set (effect_add (load ''C1'' ''P1'' ''SFO''))"
      "set (neg fluents') = (set [At ''C2'' ''SFO'', In ''C2'' ''P1'', In ''C2'' ''P2'', At ''C1'' ''JFK'',
                 In ''C1'' ''P1'', In ''C1'' ''P2'', At ''P1'' ''JFK'', At ''P2'' ''SFO''] 
          - set (effect_add (load ''C1'' ''P1'' ''SFO''))) \<union> set (effect_rem (load ''C1'' ''P1'' ''SFO''))"
    by auto
  have "set (pos fluents') = {At ''C2'' ''JFK'', At ''P1'' ''SFO'', At ''P2'' ''JFK'', In ''C1'' ''P1''}"
    unfolding r(3) by (auto simp: load_def At_def In_def Symbol_def)
  moreover have "set (neg fluents') = {At ''C2'' ''SFO'', In ''C2'' ''P1'', In ''C2'' ''P2'', At ''C1'' ''JFK'',
                 In ''C1'' ''P2'', At ''P1'' ''JFK'', At ''P2'' ''SFO'', At ''C1'' ''SFO''}"
    unfolding r(4) by (auto simp: load_def At_def In_def Symbol_def)
  ultimately show ?thesis using p1_distinct p1_decode_initial h3 h4 r(1,2) by blast
qed

text \<open>
  C1 as stated, for every problem and grounded action, fails where an effect literal has no
  position in the state map: in \<open>one_plane_problem\<close> the initial state offers
  Fly(P1, SFO, JFK), whose add effect At(P1, JFK) is not in the map. The result decodes to
  no true literal at all, while the stated set is the single literal At(P1, JFK).
\<close>

theorem result_effects_counterexample:
  "initial_state_TF one_plane_problem = [True] \<and>
   actions one_plane_problem [True] = Inr [fly ''P1'' ''SFO'' ''JFK''] \<and>
   decode_state [True] (state_map one_plane_problem) = Inr \<lparr>pos = [At ''P1'' ''SFO''], neg = []\<rparr> \<and>
   result one_plane_problem [True] (fly ''P1'' ''SFO'' ''JFK'') = Inr [False] \<and>
   decode_state [False] (state_map one_plane_problem) = Inr \<lparr>pos = [], neg = [At ''P1'' ''SFO'']\<rparr> \<and>
   set (pos \<lparr>pos = [], neg = [At ''P1'' ''SFO'']\<rparr>) \<noteq>
     (set (pos \<lparr>pos = [At ''P1'' ''SFO''], neg = []\<rparr>) - set (effect_rem (fly ''P1'' ''SFO'' ''JFK'')))
       \<union> set (effect_add (fly ''P1'' ''SFO'' ''JFK''))"
  by (simp add: opp_fields actions_def result_def decode_state_def encode_state_def Let_def
      fly_def At_def Symbol_def)

text \<open>
  C9, as the code has it: \<^verbatim>\<open>result\<close> checks no effect against the state map. For every
  state of the map's length and every action it returns an encoded state of that length,
  never an error, and this state is the one returned for the action with the effect
  literals outside the state map removed: such literals are dropped.
\<close>

theorem result_drops_unknown_effects:
  assumes "length s = length (state_map self)"
  shows "\<exists>s'. result self s a = Inr s' \<and> length s' = length (state_map self) \<and>
           result self s
             (a\<lparr>effect_add := filter (\<lambda>x. x \<in> set (state_map self)) (effect_add a),
                effect_rem := filter (\<lambda>x. x \<in> set (state_map self)) (effect_rem a)\<rparr>) = Inr s'"
proof -
  obtain fluents where dec: "decode_state s (state_map self) = Inr fluents"
    using assms by (simp add: decode_state_def)
  let ?a' = "a\<lparr>effect_add := filter (\<lambda>x. x \<in> set (state_map self)) (effect_add a),
                effect_rem := filter (\<lambda>x. x \<in> set (state_map self)) (effect_rem a)\<rparr>"
  have "map (\<lambda>x. x \<in> (set (pos fluents) - set (effect_rem ?a')) \<union> set (effect_add ?a'))
          (state_map self) =
        map (\<lambda>x. x \<in> (set (pos fluents) - set (effect_rem a)) \<union> set (effect_add a))
          (state_map self)"
    by (intro map_cong) auto
  then show ?thesis
    by (simp add: result_encoded[OF dec])
qed

theorem result_drops_unknown_effects_witness:
  "length [True] = length (state_map one_plane_problem) \<and>
   (\<exists>s'. result one_plane_problem [True] (fly ''P1'' ''SFO'' ''JFK'') = Inr s' \<and>
      length s' = length (state_map one_plane_problem) \<and>
      result one_plane_problem [True]
        ((fly ''P1'' ''SFO'' ''JFK'')\<lparr>effect_add := [], effect_rem := [At ''P1'' ''SFO'']\<rparr>) = Inr s')"
proof -
  have len: "length [True] = length (state_map one_plane_problem)"
    by (simp add: opp_fields)
  have "filter (\<lambda>x. x \<in> set (state_map one_plane_problem)) (effect_add (fly ''P1'' ''SFO'' ''JFK'')) = []"
       "filter (\<lambda>x. x \<in> set (state_map one_plane_problem)) (effect_rem (fly ''P1'' ''SFO'' ''JFK''))
          = [At ''P1'' ''SFO'']"
    by (simp_all add: opp_fields fly_def At_def Symbol_def)
  with result_drops_unknown_effects[OF len, of "fly ''P1'' ''SFO'' ''JFK''"] len
  show ?thesis by simp
qed

text \<open>
  C9 as stated asks for a rejection. In \<open>one_plane_problem\<close> the applicable action
  Fly(P1, SFO, JFK) adds At(P1, JFK), which the state map does not hold; \<^verbatim>\<open>result\<close>
  returns the encoded state in which the plane is nowhere, and no error.
\<close>

theorem result_rejects_counterexample:
  "initial_state_TF one_plane_problem = [True] \<and>
   actions one_plane_problem [True] = Inr [fly ''P1'' ''SFO'' ''JFK''] \<and>
   At ''P1'' ''JFK'' \<in> set (effect_add (fly ''P1'' ''SFO'' ''JFK'')) \<and>
   At ''P1'' ''JFK'' \<notin> set (state_map one_plane_problem) \<and>
   result one_plane_problem [True] (fly ''P1'' ''SFO'' ''JFK'') = Inr [False] \<and>
   result one_plane_problem [True] (fly ''P1'' ''SFO'' ''JFK'') \<noteq> Inl RepresentationError"
  by (simp add: opp_fields actions_def result_def decode_state_def encode_state_def Let_def
      fly_def At_def Symbol_def)

subsection \<open>Reachable states\<close>

lemma reachable_encoded:
  assumes "reachable self s"
    and "initial_state_TF self = encode_state init (state_map self)"
  shows "\<exists>fs. s = encode_state fs (state_map self)"
  using assms
proof (induction rule: reachable.induct)
  case reachable_init
  then show ?case by blast
next
  case (reachable_step s acts a s')
  then show ?case by (blast dest: result_is_encoding)
qed

lemma encoded_partition:
  "\<exists>fluents. decode_state (encode_state fs m) m = Inr fluents \<and>
     set (pos fluents) \<inter> set (neg fluents) = {} \<and>
     set (pos fluents) \<union> set (neg fluents) = set m"
  by (auto simp: decode_encode)

lemma reachable_partition:
  assumes "self = AirCargoProblem_init cs ps aps init g"
    and "reachable self s"
  shows "\<exists>fluents. decode_state s (state_map self) = Inr fluents \<and>
           set (pos fluents) \<inter> set (neg fluents) = {} \<and>
           set (pos fluents) \<union> set (neg fluents) = set (state_map self)"
proof -
  have "initial_state_TF self = encode_state init (state_map self)"
    using assms(1) by (simp add: init_fields)
  with assms(2) obtain fs where "s = encode_state fs (state_map self)"
    by (blast dest: reachable_encoded)
  then show ?thesis using encoded_partition by simp
qed

lemma p1_reach1:
  "reachable air_cargo_p1
     [False, True, True, True, False, False, False, False, True, False, False, False]"
proof -
  have "reachable air_cargo_p1 (initial_state_TF air_cargo_p1)"
    by (rule reachable_init)
  then show ?thesis
    using p1_actions_initial p1_member(1) p1_step1 unfolding p1_initial
    by (rule reachable_step)
qed

lemma p1_reach2:
  "reachable air_cargo_p1
     [False, True, False, True, False, False, False, False, True, False, True, False]"
proof -
  have "decode_state [False, True, True, True, False, False, False, False, True, False, False, False]
      (state_map air_cargo_p1) =
      Inr \<lparr>pos = [At ''C2'' ''JFK'', At ''P1'' ''SFO'', At ''P2'' ''JFK'', In ''C1'' ''P1''],
           neg = [At ''C1'' ''SFO'', At ''C2'' ''SFO'', In ''C2'' ''P1'', In ''C2'' ''P2'',
                  At ''C1'' ''JFK'', In ''C1'' ''P2'', At ''P1'' ''JFK'', At ''P2'' ''SFO'']\<rparr>"
    by (simp add: p1_state_map decode_state_def)
  then obtain acts where
    "actions air_cargo_p1
       [False, True, True, True, False, False, False, False, True, False, False, False] = Inr acts"
    "fly ''P1'' ''SFO'' ''JFK'' \<in> set acts"
    using actions_offers[OF _ p1_grounded(2)] by (fastforce simp: fly_def)
  with p1_reach1 show ?thesis
    using p1_step2 by (rule reachable_step)
qed

lemma p1_reach3:
  "reachable air_cargo_p1
     [False, True, False, True, False, False, False, True, False, False, True, False]"
proof -
  have "decode_state [False, True, False, True, False, False, False, False, True, False, True, False]
      (state_map air_cargo_p1) =
      Inr \<lparr>pos = [At ''C2'' ''JFK'', At ''P2'' ''JFK'', In ''C1'' ''P1'', At ''P1'' ''JFK''],
           neg = [At ''C1'' ''SFO'', At ''P1'' ''SFO'', At ''C2'' ''SFO'', In ''C2'' ''P1'',
                  In ''C2'' ''P2'', At ''C1'' ''JFK'', In ''C1'' ''P2'', At ''P2'' ''SFO'']\<rparr>"
    by (simp add: p1_state_map decode_state_def)
  then obtain acts where
    "actions air_cargo_p1
       [False, True, False, True, False, False, False, False, True, False, True, False] = Inr acts"
    "unload ''C1'' ''P1'' ''JFK'' \<in> set acts"
    using actions_offers[OF _ p1_grounded(3)] by (fastforce simp: unload_def)
  with p1_reach2 show ?thesis
    using p1_step3 by (rule reachable_step)
qed

text \<open>
  C3: every state reached from the initial state of a constructed problem, by results of
  actions that \<^verbatim>\<open>actions\<close> offers, decodes to true and false literals that are disjoint
  and together are exactly the literals of the state map.
\<close>

theorem partition_preserved:
  assumes "self = AirCargoProblem_init cs ps aps init g"
    and "reachable self s"
  shows "\<exists>fluents. decode_state s (state_map self) = Inr fluents \<and>
           set (pos fluents) \<inter> set (neg fluents) = {} \<and>
           set (pos fluents) \<union> set (neg fluents) = set (state_map self)"
  using assms by (rule reachable_partition)

theorem partition_preserved_witness:
  "air_cargo_p1 = AirCargoProblem_init [''C1'', ''C2''] [''P1'', ''P2''] [''JFK'', ''SFO'']
     \<lparr>pos = [At ''C1'' ''SFO'', At ''C2'' ''JFK'', At ''P1'' ''SFO'', At ''P2'' ''JFK''],
      neg = [At ''C2'' ''SFO'', In ''C2'' ''P1'', In ''C2'' ''P2'', At ''C1'' ''JFK'',
             In ''C1'' ''P1'', In ''C1'' ''P2'', At ''P1'' ''JFK'', At ''P2'' ''SFO'']\<rparr>
     [At ''C1'' ''JFK'', At ''C2'' ''SFO''] \<and>
   reachable air_cargo_p1
     [False, True, False, True, False, False, False, True, False, False, True, False] \<and>
   (\<exists>fluents. decode_state
        [False, True, False, True, False, False, False, True, False, False, True, False]
        (state_map air_cargo_p1) = Inr fluents \<and>
      set (pos fluents) \<inter> set (neg fluents) = {} \<and>
      set (pos fluents) \<union> set (neg fluents) = set (state_map air_cargo_p1))"
  using p1_init p1_reach3 partition_preserved[OF p1_init p1_reach3] by (intro conjI)

subsection \<open>Undoing an action\<close>

lemma there_and_back:
  assumes dist: "distinct (state_map self)"
    and dec: "decode_state s (state_map self) = Inr fluents"
    and fwd: "effect_add a = [y]" "effect_rem a = [x]"
    and bwd: "effect_add b = [x]" "effect_rem b = [y]"
    and before: "x \<in> set (pos fluents)" "y \<notin> set (pos fluents)"
  shows "\<exists>s1. result self s a = Inr s1 \<and> result self s1 b = Inr s"
proof -
  let ?m = "state_map self"
  let ?T = "(set (pos fluents) - set (effect_rem a)) \<union> set (effect_add a)"
  let ?s1 = "map (\<lambda>z. z \<in> ?T) ?m"
  have r1: "result self s a = Inr ?s1"
    using dec by (rule result_encoded)
  have "result self ?s1 b =
      Inr (map (\<lambda>z. z \<in> (set (pos \<lparr>pos = filter (\<lambda>z. z \<in> ?T) ?m,
                                      neg = filter (\<lambda>z. z \<notin> ?T) ?m\<rparr>) - set (effect_rem b))
                          \<union> set (effect_add b)) ?m)"
    by (rule result_encoded) (rule decode_flags)
  also have "map (\<lambda>z. z \<in> (set (pos \<lparr>pos = filter (\<lambda>z. z \<in> ?T) ?m,
                                      neg = filter (\<lambda>z. z \<notin> ?T) ?m\<rparr>) - set (effect_rem b))
                          \<union> set (effect_add b)) ?m =
      map (\<lambda>z. z \<in> set (pos fluents)) ?m"
    using before by (intro map_cong) (auto simp: fwd bwd)
  also have "\<dots> = s"
    using dist dec by (rule state_as_encoding[symmetric])
  finally show ?thesis using r1 by blast
qed

text \<open>
  C10, as the code has it: over a state map without repeated literals, in a state where
  \<^verbatim>\<open>actions\<close> offers Load(c, p, a), the result of Load(c, p, a) and then Unload(c, p, a)
  is the state itself; and where \<^verbatim>\<open>actions\<close> offers Fly(q, from, to) and the plane is not
  also at the destination (At(q, to) is not a true literal), the result of Fly(q, from, to)
  and then Fly(q, to, from) is the state itself.
\<close>

theorem load_unload_fly_roundtrip:
  assumes "distinct (state_map self)"
    and "actions self s = Inr acts"
    and "decode_state s (state_map self) = Inr fluents"
  shows "(load c p ap \<in> set acts \<longrightarrow>
            (\<exists>s1. result self s (load c p ap) = Inr s1 \<and>
                   result self s1 (unload c p ap) = Inr s)) \<and>
         (fly q fr to \<in> set acts \<longrightarrow> At q to \<notin> set (pos fluents) \<longrightarrow>
            (\<exists>s1. result self s (fly q fr to) = Inr s1 \<and>
                   result self s1 (fly q to fr) = Inr s))"
proof (intro conjI impI)
  from assms(2,3) have acts:
    "acts = filter (\<lambda>a. set (precond_neg a) \<subseteq> set (neg fluents) \<and>
                         set (precond_pos a) \<subseteq> set (pos fluents)) (actions_list self)"
    by (auto elim: actions_Inr)
  have disj: "set (pos fluents) \<inter> set (neg fluents) = {}"
    using assms(1,3) by (rule decoded_disjoint)
  {
    assume "load c p ap \<in> set acts"
    then have "At c ap \<in> set (pos fluents)" "In c p \<in> set (neg fluents)"
      by (simp_all add: acts load_def)
    with disj have "At c ap \<in> set (pos fluents)" "In c p \<notin> set (pos fluents)"
      by auto
    then show "\<exists>s1. result self s (load c p ap) = Inr s1 \<and>
                   result self s1 (unload c p ap) = Inr s"
      by (intro there_and_back[OF assms(1,3)]) (simp_all add: load_def unload_def)
  }
  {
    assume "fly q fr to \<in> set acts" and away: "At q to \<notin> set (pos fluents)"
    then have "At q fr \<in> set (pos fluents)"
      by (simp add: acts fly_def)
    with away show "\<exists>s1. result self s (fly q fr to) = Inr s1 \<and>
                   result self s1 (fly q to fr) = Inr s"
      by (intro there_and_back[OF assms(1,3)]) (simp_all add: fly_def)
  }
qed

theorem load_unload_fly_roundtrip_witness:
  "distinct (state_map air_cargo_p1) \<and>
   actions air_cargo_p1 (initial_state_TF air_cargo_p1) =
     Inr [load ''C2'' ''P2'' ''JFK'', load ''C1'' ''P1'' ''SFO'',
          fly ''P2'' ''JFK'' ''SFO'', fly ''P1'' ''SFO'' ''JFK''] \<and>
   decode_state (initial_state_TF air_cargo_p1) (state_map air_cargo_p1) =
     Inr \<lparr>pos = [At ''C1'' ''SFO'', At ''C2'' ''JFK'', At ''P1'' ''SFO'', At ''P2'' ''JFK''],
          neg = [At ''C2'' ''SFO'', In ''C2'' ''P1'', In ''C2'' ''P2'', At ''C1'' ''JFK'',
                 In ''C1'' ''P1'', In ''C1'' ''P2'', At ''P1'' ''JFK'', At ''P2'' ''SFO'']\<rparr> \<and>
   load ''C1'' ''P1'' ''SFO'' \<in> set [load ''C2'' ''P2'' ''JFK'', load ''C1'' ''P1'' ''SFO'',
          fly ''P2'' ''JFK'' ''SFO'', fly ''P1'' ''SFO'' ''JFK''] \<and>
   (\<exists>s1. result air_cargo_p1 (initial_state_TF air_cargo_p1) (load ''C1'' ''P1'' ''SFO'') = Inr s1 \<and>
          result air_cargo_p1 s1 (unload ''C1'' ''P1'' ''SFO'') = Inr (initial_state_TF air_cargo_p1)) \<and>
   fly ''P1'' ''SFO'' ''JFK'' \<in> set [load ''C2'' ''P2'' ''JFK'', load ''C1'' ''P1'' ''SFO'',
          fly ''P2'' ''JFK'' ''SFO'', fly ''P1'' ''SFO'' ''JFK''] \<and>
   At ''P1'' ''JFK'' \<notin> set [At ''C1'' ''SFO'', At ''C2'' ''JFK'', At ''P1'' ''SFO'', At ''P2'' ''JFK''] \<and>
   (\<exists>s1. result air_cargo_p1 (initial_state_TF air_cargo_p1) (fly ''P1'' ''SFO'' ''JFK'') = Inr s1 \<and>
          result air_cargo_p1 s1 (fly ''P1'' ''JFK'' ''SFO'') = Inr (initial_state_TF air_cargo_p1))"
proof -
  have away: "At ''P1'' ''JFK'' \<notin>
      set [At ''C1'' ''SFO'', At ''C2'' ''JFK'', At ''P1'' ''SFO'', At ''P2'' ''JFK'']"
    by (simp add: At_def Symbol_def)
  note t = load_unload_fly_roundtrip[OF p1_distinct p1_actions_initial p1_decode_initial]
  from t[where c="''C1''" and p="''P1''" and ap="''SFO''"] p1_member(1)
  have a: "\<exists>s1. result air_cargo_p1 (initial_state_TF air_cargo_p1) (load ''C1'' ''P1'' ''SFO'') = Inr s1 \<and>
          result air_cargo_p1 s1 (unload ''C1'' ''P1'' ''SFO'') = Inr (initial_state_TF air_cargo_p1)"
    by blast
  from t[where q="''P1''" and fr="''SFO''" and to="''JFK''"] p1_member(2) away
  have b: "\<exists>s1. result air_cargo_p1 (initial_state_TF air_cargo_p1) (fly ''P1'' ''SFO'' ''JFK'') = Inr s1 \<and>
          result air_cargo_p1 s1 (fly ''P1'' ''JFK'' ''SFO'') = Inr (initial_state_TF air_cargo_p1)"
    by simp
  from p1_distinct p1_actions_initial p1_decode_initial p1_member a b away show ?thesis
    by (intro conjI)
qed

text \<open>
  C10 as stated, for every state in which Fly is applicable, fails in a state that has the
  plane at both airports: Fly has no negative precondition, so Fly(P1, SFO, JFK) is offered,
  and flying there and back leaves At(P1, JFK) false, which was true before.
\<close>

theorem fly_roundtrip_counterexample:
  "length [True, True, True, True, False, False, False, False, False, False, True, False] =
     length (state_map air_cargo_p1) \<and>
   actions air_cargo_p1 [True, True, True, True, False, False, False, False, False, False, True, False] =
     Inr [load ''C2'' ''P1'' ''JFK'', load ''C2'' ''P2'' ''JFK'', load ''C1'' ''P1'' ''SFO'',
          fly ''P1'' ''JFK'' ''SFO'', fly ''P2'' ''JFK'' ''SFO'', fly ''P1'' ''SFO'' ''JFK''] \<and>
   fly ''P1'' ''SFO'' ''JFK'' \<in> set [load ''C2'' ''P1'' ''JFK'', load ''C2'' ''P2'' ''JFK'', load ''C1'' ''P1'' ''SFO'',
          fly ''P1'' ''JFK'' ''SFO'', fly ''P2'' ''JFK'' ''SFO'', fly ''P1'' ''SFO'' ''JFK''] \<and>
   result air_cargo_p1 [True, True, True, True, False, False, False, False, False, False, True, False]
     (fly ''P1'' ''SFO'' ''JFK'') =
     Inr [True, True, False, True, False, False, False, False, False, False, True, False] \<and>
   result air_cargo_p1 [True, True, False, True, False, False, False, False, False, False, True, False]
     (fly ''P1'' ''JFK'' ''SFO'') =
     Inr [True, True, True, True, False, False, False, False, False, False, False, False] \<and>
   [True, True, True, True, False, False, False, False, False, False, False, False] \<noteq>
   [True, True, True, True, False, False, False, False, False, False, True, False]"
proof -
  have "actions air_cargo_p1 [True, True, True, True, False, False, False, False, False, False, True, False] =
     Inr [load ''C2'' ''P1'' ''JFK'', load ''C2'' ''P2'' ''JFK'', load ''C1'' ''P1'' ''SFO'',
          fly ''P1'' ''JFK'' ''SFO'', fly ''P2'' ''JFK'' ''SFO'', fly ''P1'' ''SFO'' ''JFK'']"
    by code_simp
  moreover have "result air_cargo_p1 [True, True, True, True, False, False, False, False, False, False, True, False]
     (fly ''P1'' ''SFO'' ''JFK'') =
     Inr [True, True, False, True, False, False, False, False, False, False, True, False]"
    by (simp add: p1_eval)
  moreover have "result air_cargo_p1 [True, True, False, True, False, False, False, False, False, False, True, False]
     (fly ''P1'' ''JFK'' ''SFO'') =
     Inr [True, True, True, True, False, False, False, False, False, False, False, False]"
    by (simp add: p1_eval)
  moreover have "length [True, True, True, True, False, False, False, False, False, False, True, False] =
     length (state_map air_cargo_p1)"
    by (simp add: p1_state_map)
  ultimately show ?thesis by (intro conjI) simp_all
qed

subsection \<open>The goal test\<close>

lemma goal_loop_subset: "goal_loop kb gs \<longleftrightarrow> set gs \<subseteq> set (clauses kb)"
  by (induction gs) auto

text \<open>
  C7: \<^verbatim>\<open>goal_test\<close> with its clause store returns what the direct subset check returns:
  for a state that decodes, true iff every literal of the goal list is among the decoded
  true literals.
\<close>

theorem goal_test_is_subset_check:
  "goal_test self s = goal_test_direct self s \<and>
   (\<forall>fluents. decode_state s (state_map self) = Inr fluents \<longrightarrow>
      goal_test self s = Inr (\<forall>g \<in> set (goal self). g \<in> set (pos fluents)))"
  by (auto simp: goal_test_def goal_test_direct_def goal_loop_subset tell_def PropKB_init_def
      pos_sentence_def Let_def split: sum.splits)

theorem goal_test_is_subset_check_witness:
  "goal_test air_cargo_p1 (initial_state_TF air_cargo_p1) =
     goal_test_direct air_cargo_p1 (initial_state_TF air_cargo_p1) \<and>
   decode_state (initial_state_TF air_cargo_p1) (state_map air_cargo_p1) =
     Inr \<lparr>pos = [At ''C1'' ''SFO'', At ''C2'' ''JFK'', At ''P1'' ''SFO'', At ''P2'' ''JFK''],
          neg = [At ''C2'' ''SFO'', In ''C2'' ''P1'', In ''C2'' ''P2'', At ''C1'' ''JFK'',
                 In ''C1'' ''P1'', In ''C1'' ''P2'', At ''P1'' ''JFK'', At ''P2'' ''SFO'']\<rparr> \<and>
   goal_test air_cargo_p1 (initial_state_TF air_cargo_p1) = Inr False"
proof -
  note t = goal_test_is_subset_check[of air_cargo_p1 "initial_state_TF air_cargo_p1"]
  from t have eq: "goal_test air_cargo_p1 (initial_state_TF air_cargo_p1) =
     goal_test_direct air_cargo_p1 (initial_state_TF air_cargo_p1)"
    by (rule conjunct1)
  from t p1_decode_initial
  have "goal_test air_cargo_p1 (initial_state_TF air_cargo_p1) =
      Inr (\<forall>g \<in> set (goal air_cargo_p1).
        g \<in> set (pos \<lparr>pos = [At ''C1'' ''SFO'', At ''C2'' ''JFK'', At ''P1'' ''SFO'', At ''P2'' ''JFK''],
          neg = [At ''C2'' ''SFO'', In ''C2'' ''P1'', In ''C2'' ''P2'', At ''C1'' ''JFK'',
                 In ''C1'' ''P1'', In ''C1'' ''P2'', At ''P1'' ''JFK'', At ''P2'' ''SFO'']\<rparr>))"
    by blast
  then have "goal_test air_cargo_p1 (initial_state_TF air_cargo_p1) = Inr False"
    by (simp add: p1_goal At_def Symbol_def)
  with eq p1_decode_initial show ?thesis by blast
qed

text \<open>
  C5: from the initial state of \<open>air_cargo_p1\<close>, the results of Load(C1, P1, SFO),
  Fly(P1, SFO, JFK), Unload(C1, P1, JFK), Load(C2, P2, JFK), Fly(P2, JFK, SFO) and
  Unload(C2, P2, SFO), applied in this order, end in a state on which \<^verbatim>\<open>goal_test\<close>
  returns true.
\<close>

theorem plan_reaches_goal:
  "initial_state_TF air_cargo_p1 =
     [True, True, True, True, False, False, False, False, False, False, False, False] \<and>
   result air_cargo_p1 [True, True, True, True, False, False, False, False, False, False, False, False]
     (load ''C1'' ''P1'' ''SFO'') =
     Inr [False, True, True, True, False, False, False, False, True, False, False, False] \<and>
   result air_cargo_p1 [False, True, True, True, False, False, False, False, True, False, False, False]
     (fly ''P1'' ''SFO'' ''JFK'') =
     Inr [False, True, False, True, False, False, False, False, True, False, True, False] \<and>
   result air_cargo_p1 [False, True, False, True, False, False, False, False, True, False, True, False]
     (unload ''C1'' ''P1'' ''JFK'') =
     Inr [False, True, False, True, False, False, False, True, False, False, True, False] \<and>
   result air_cargo_p1 [False, True, False, True, False, False, False, True, False, False, True, False]
     (load ''C2'' ''P2'' ''JFK'') =
     Inr [False, False, False, True, False, False, True, True, False, False, True, False] \<and>
   result air_cargo_p1 [False, False, False, True, False, False, True, True, False, False, True, False]
     (fly ''P2'' ''JFK'' ''SFO'') =
     Inr [False, False, False, False, False, False, True, True, False, False, True, True] \<and>
   result air_cargo_p1 [False, False, False, False, False, False, True, True, False, False, True, True]
     (unload ''C2'' ''P2'' ''SFO'') =
     Inr [False, False, False, False, True, False, False, True, False, False, True, True] \<and>
   goal_test air_cargo_p1
     [False, False, False, False, True, False, False, True, False, False, True, True] = Inr True"
  by (intro conjI p1_initial p1_step1 p1_step2 p1_step3 p1_step4 p1_step5 p1_step6 p1_goal_reached)

subsection \<open>The heuristic that ignores preconditions\<close>

lemma h_loop_count:
  "h_loop x gs n = n + length (filter (\<lambda>g. g \<in> set (neg x)) gs)"
  by (induction gs arbitrary: n) simp_all

lemma h_value:
  assumes "decode_state s (state_map self) = Inr fluents"
  shows "h_ignore_preconditions self \<lparr>state = s\<rparr> =
     Inr (length (filter (\<lambda>g. g \<in> set (neg fluents)) (goal self)))"
  using assms by (simp add: h_ignore_preconditions_def h_loop_count)

lemma length_filter_imp:
  assumes "\<forall>x \<in> set xs. P x \<longrightarrow> Q x"
  shows "length (filter P xs) \<le> length (filter Q xs)"
  using assms by (induction xs) auto

lemma length_filter_one_more:
  assumes "distinct xs" "g \<in> set xs" "Q g" "\<not> P g"
    and "\<forall>x \<in> set xs. x \<noteq> g \<longrightarrow> (P x \<longleftrightarrow> Q x)"
  shows "length (filter Q xs) = length (filter P xs) + 1"
proof -
  have "{x. Q x} \<inter> set xs = insert g ({x. P x} \<inter> set xs)"
    using assms by auto
  moreover have "g \<notin> {x. P x} \<inter> set xs"
    using assms by simp
  ultimately have "card ({x. Q x} \<inter> set xs) = card ({x. P x} \<inter> set xs) + 1"
    by simp
  then show ?thesis
    using assms(1) by (simp add: distinct_length_filter)
qed

text \<open>
  C8, as the code has it: for a reachable state and an action that deletes no goal literal
  that is true (unless it also adds it), \<^verbatim>\<open>h_ignore_preconditions\<close> does not increase
  across the result; and when moreover the goal list has no repeated literal and exactly
  one false goal literal is among the add effects, it decreases by exactly one.
\<close>

theorem h_ignore_preconditions_step:
  assumes "self = AirCargoProblem_init cs ps aps init gl"
    and "reachable self s"
    and "decode_state s (state_map self) = Inr fluents"
    and "result self s a = Inr s'"
    and "\<forall>x \<in> set (goal self).
           x \<in> set (effect_rem a) \<longrightarrow> x \<in> set (pos fluents) \<longrightarrow> x \<in> set (effect_add a)"
  shows "\<exists>n n'. h_ignore_preconditions self \<lparr>state = s\<rparr> = Inr n \<and>
           h_ignore_preconditions self \<lparr>state = s'\<rparr> = Inr n' \<and> n' \<le> n \<and>
           (distinct (goal self) \<and> g0 \<in> set (goal self) \<and> g0 \<in> set (neg fluents) \<and>
            g0 \<in> set (effect_add a) \<and>
            (\<forall>x \<in> set (goal self).
               x \<in> set (neg fluents) \<longrightarrow> x \<in> set (effect_add a) \<longrightarrow> x = g0)
            \<longrightarrow> n = n' + 1)"
proof -
  let ?m = "state_map self"
  let ?T = "(set (pos fluents) - set (effect_rem a)) \<union> set (effect_add a)"
  let ?N = "\<lambda>g. g \<in> set (neg fluents)"
  let ?N' = "\<lambda>g. g \<in> set ?m \<and> g \<notin> ?T"
  have cover: "set (pos fluents) \<union> set (neg fluents) = set ?m"
    using assms(3) by (rule decoded_cover)
  have disj: "set (pos fluents) \<inter> set (neg fluents) = {}"
    using reachable_partition[OF assms(1,2)] assms(3) by auto
  have s': "s' = map (\<lambda>x. x \<in> ?T) ?m"
    using result_encoded[OF assms(3), of a] assms(4) by simp
  have "decode_state s' ?m =
      Inr \<lparr>pos = filter (\<lambda>x. x \<in> ?T) ?m, neg = filter (\<lambda>x. x \<notin> ?T) ?m\<rparr>"
    unfolding s' by (rule decode_flags)
  then have h': "h_ignore_preconditions self \<lparr>state = s'\<rparr> =
      Inr (length (filter ?N' (goal self)))"
    by (simp add: h_value)
  have h: "h_ignore_preconditions self \<lparr>state = s\<rparr> = Inr (length (filter ?N (goal self)))"
    using assms(3) by (rule h_value)
  have le: "length (filter ?N' (goal self)) \<le> length (filter ?N (goal self))"
    using cover assms(5) by (intro length_filter_imp) auto
  have exact: "length (filter ?N (goal self)) = length (filter ?N' (goal self)) + 1"
    if "distinct (goal self)" "g0 \<in> set (goal self)" "g0 \<in> set (neg fluents)"
      "g0 \<in> set (effect_add a)"
      "\<forall>x \<in> set (goal self). x \<in> set (neg fluents) \<longrightarrow> x \<in> set (effect_add a) \<longrightarrow> x = g0"
    using that(1,2)
  proof (rule length_filter_one_more)
    show "g0 \<in> set (neg fluents)" by fact
    show "\<not> (g0 \<in> set ?m \<and> g0 \<notin> ?T)" using that(4) by simp
    show "\<forall>x \<in> set (goal self). x \<noteq> g0 \<longrightarrow> ((x \<in> set ?m \<and> x \<notin> ?T) \<longleftrightarrow> x \<in> set (neg fluents))"
      using cover disj assms(5) that(5) by auto
  qed
  from h h' le exact show ?thesis by blast
qed

theorem h_ignore_preconditions_step_witness:
  "air_cargo_p1 = AirCargoProblem_init [''C1'', ''C2''] [''P1'', ''P2''] [''JFK'', ''SFO'']
     \<lparr>pos = [At ''C1'' ''SFO'', At ''C2'' ''JFK'', At ''P1'' ''SFO'', At ''P2'' ''JFK''],
      neg = [At ''C2'' ''SFO'', In ''C2'' ''P1'', In ''C2'' ''P2'', At ''C1'' ''JFK'',
             In ''C1'' ''P1'', In ''C1'' ''P2'', At ''P1'' ''JFK'', At ''P2'' ''SFO'']\<rparr>
     [At ''C1'' ''JFK'', At ''C2'' ''SFO''] \<and>
   reachable air_cargo_p1
     [False, True, False, True, False, False, False, False, True, False, True, False] \<and>
   decode_state [False, True, False, True, False, False, False, False, True, False, True, False]
      (state_map air_cargo_p1) =
      Inr \<lparr>pos = [At ''C2'' ''JFK'', At ''P2'' ''JFK'', In ''C1'' ''P1'', At ''P1'' ''JFK''],
           neg = [At ''C1'' ''SFO'', At ''P1'' ''SFO'', At ''C2'' ''SFO'', In ''C2'' ''P1'',
                  In ''C2'' ''P2'', At ''C1'' ''JFK'', In ''C1'' ''P2'', At ''P2'' ''SFO'']\<rparr> \<and>
   result air_cargo_p1 [False, True, False, True, False, False, False, False, True, False, True, False]
     (unload ''C1'' ''P1'' ''JFK'') =
     Inr [False, True, False, True, False, False, False, True, False, False, True, False] \<and>
   set (goal air_cargo_p1) \<inter> set (effect_rem (unload ''C1'' ''P1'' ''JFK'')) = {} \<and>
   distinct (goal air_cargo_p1) \<and>
   set (goal air_cargo_p1) \<inter> set (effect_add (unload ''C1'' ''P1'' ''JFK'')) = {At ''C1'' ''JFK''} \<and>
   At ''C1'' ''JFK'' \<in> set [At ''C1'' ''SFO'', At ''P1'' ''SFO'', At ''C2'' ''SFO'', In ''C2'' ''P1'',
                  In ''C2'' ''P2'', At ''C1'' ''JFK'', In ''C1'' ''P2'', At ''P2'' ''SFO''] \<and>
   h_ignore_preconditions air_cargo_p1
     \<lparr>state = [False, True, False, True, False, False, False, False, True, False, True, False]\<rparr> = Inr 2 \<and>
   h_ignore_preconditions air_cargo_p1
     \<lparr>state = [False, True, False, True, False, False, False, True, False, False, True, False]\<rparr> = Inr 1"
proof -
  let ?a = "unload ''C1'' ''P1'' ''JFK''"
  let ?g = "At ''C1'' ''JFK''"
  have rem: "set (goal air_cargo_p1) \<inter> set (effect_rem ?a) = {}"
    by (simp add: p1_goal unload_def At_def In_def)
  have dist: "distinct (goal air_cargo_p1)"
    by (simp add: p1_goal At_def Symbol_def)
  have add: "set (goal air_cargo_p1) \<inter> set (effect_add ?a) = {?g}"
    by (auto simp: p1_goal unload_def At_def Symbol_def)
  have isneg: "?g \<in> set [At ''C1'' ''SFO'', At ''P1'' ''SFO'', At ''C2'' ''SFO'', In ''C2'' ''P1'',
                  In ''C2'' ''P2'', At ''C1'' ''JFK'', In ''C1'' ''P2'', At ''P2'' ''SFO'']"
    by simp
  have keep: "\<forall>x \<in> set (goal air_cargo_p1). x \<in> set (effect_rem ?a) \<longrightarrow>
      x \<in> set (pos \<lparr>pos = [At ''C2'' ''JFK'', At ''P2'' ''JFK'', In ''C1'' ''P1'', At ''P1'' ''JFK''],
           neg = [At ''C1'' ''SFO'', At ''P1'' ''SFO'', At ''C2'' ''SFO'', In ''C2'' ''P1'',
                  In ''C2'' ''P2'', At ''C1'' ''JFK'', In ''C1'' ''P2'', At ''P2'' ''SFO'']\<rparr>) \<longrightarrow>
      x \<in> set (effect_add ?a)"
    using rem by blast
  from h_ignore_preconditions_step[OF p1_init p1_reach2 p1_decode2 p1_step3 keep, of ?g]
  obtain n n' where
    n: "h_ignore_preconditions air_cargo_p1
     \<lparr>state = [False, True, False, True, False, False, False, False, True, False, True, False]\<rparr> = Inr n"
    and n': "h_ignore_preconditions air_cargo_p1
     \<lparr>state = [False, True, False, True, False, False, False, True, False, False, True, False]\<rparr> = Inr n'"
    and step: "distinct (goal air_cargo_p1) \<and> ?g \<in> set (goal air_cargo_p1) \<and>
       ?g \<in> set (neg \<lparr>pos = [At ''C2'' ''JFK'', At ''P2'' ''JFK'', In ''C1'' ''P1'', At ''P1'' ''JFK''],
           neg = [At ''C1'' ''SFO'', At ''P1'' ''SFO'', At ''C2'' ''SFO'', In ''C2'' ''P1'',
                  In ''C2'' ''P2'', At ''C1'' ''JFK'', In ''C1'' ''P2'', At ''P2'' ''SFO'']\<rparr>) \<and>
       ?g \<in> set (effect_add ?a) \<and>
       (\<forall>x \<in> set (goal air_cargo_p1).
          x \<in> set (neg \<lparr>pos = [At ''C2'' ''JFK'', At ''P2'' ''JFK'', In ''C1'' ''P1'', At ''P1'' ''JFK''],
           neg = [At ''C1'' ''SFO'', At ''P1'' ''SFO'', At ''C2'' ''SFO'', In ''C2'' ''P1'',
                  In ''C2'' ''P2'', At ''C1'' ''JFK'', In ''C1'' ''P2'', At ''P2'' ''SFO'']\<rparr>) \<longrightarrow>
          x \<in> set (effect_add ?a) \<longrightarrow> x = ?g) \<longrightarrow> n = n' + 1"
    by blast
  have "n = n' + 1"
  proof (rule step[rule_format], intro conjI ballI impI)
    show "distinct (goal air_cargo_p1)" by (rule dist)
    show "?g \<in> set (goal air_cargo_p1)" using add by blast
    show "?g \<in> set (neg \<lparr>pos = [At ''C2'' ''JFK'', At ''P2'' ''JFK'', In ''C1'' ''P1'', At ''P1'' ''JFK''],
           neg = [At ''C1'' ''SFO'', At ''P1'' ''SFO'', At ''C2'' ''SFO'', In ''C2'' ''P1'',
                  In ''C2'' ''P2'', At ''C1'' ''JFK'', In ''C1'' ''P2'', At ''P2'' ''SFO'']\<rparr>)"
      using isneg by simp
    show "?g \<in> set (effect_add ?a)" using add by blast
    show "x = ?g" if "x \<in> set (goal air_cargo_p1)" "x \<in> set (effect_add ?a)" for x
      using that add by blast
  qed
  moreover have "n' = 1"
    using n' by (simp add: h_ignore_preconditions_def p1_state_map p1_goal decode_state_def
        At_def In_def Symbol_def)
  ultimately have "n = 2" "n' = 1" by simp_all
  with n n' p1_init p1_reach2 p1_decode2 p1_step3 rem dist add isneg show ?thesis
    by (intro conjI) simp_all
qed

text \<open>
  C8 as stated says that the heuristic never increases. In \<open>air_cargo_p1\<close>, after C1 has
  been unloaded at JFK (one goal literal left, heuristic 1), \<^verbatim>\<open>actions\<close> offers
  Load(C1, P1, JFK); its result deletes the goal literal At(C1, JFK), and the heuristic is 2.
\<close>

theorem h_never_increases_counterexample:
  "reachable air_cargo_p1
     [False, True, False, True, False, False, False, True, False, False, True, False] \<and>
   actions air_cargo_p1
     [False, True, False, True, False, False, False, True, False, False, True, False] =
     Inr [load ''C1'' ''P1'' ''JFK'', load ''C2'' ''P1'' ''JFK'', load ''C1'' ''P2'' ''JFK'',
          load ''C2'' ''P2'' ''JFK'', fly ''P1'' ''JFK'' ''SFO'', fly ''P2'' ''JFK'' ''SFO''] \<and>
   load ''C1'' ''P1'' ''JFK'' \<in>
     set [load ''C1'' ''P1'' ''JFK'', load ''C2'' ''P1'' ''JFK'', load ''C1'' ''P2'' ''JFK'',
          load ''C2'' ''P2'' ''JFK'', fly ''P1'' ''JFK'' ''SFO'', fly ''P2'' ''JFK'' ''SFO''] \<and>
   result air_cargo_p1
     [False, True, False, True, False, False, False, True, False, False, True, False]
     (load ''C1'' ''P1'' ''JFK'') =
     Inr [False, True, False, True, False, False, False, False, True, False, True, False] \<and>
   h_ignore_preconditions air_cargo_p1
     \<lparr>state = [False, True, False, True, False, False, False, True, False, False, True, False]\<rparr> = Inr 1 \<and>
   h_ignore_preconditions air_cargo_p1
     \<lparr>state = [False, True, False, True, False, False, False, False, True, False, True, False]\<rparr> = Inr 2"
proof -
  have "actions air_cargo_p1
     [False, True, False, True, False, False, False, True, False, False, True, False] =
     Inr [load ''C1'' ''P1'' ''JFK'', load ''C2'' ''P1'' ''JFK'', load ''C1'' ''P2'' ''JFK'',
          load ''C2'' ''P2'' ''JFK'', fly ''P1'' ''JFK'' ''SFO'', fly ''P2'' ''JFK'' ''SFO'']"
    by code_simp
  moreover have "result air_cargo_p1
     [False, True, False, True, False, False, False, True, False, False, True, False]
     (load ''C1'' ''P1'' ''JFK'') =
     Inr [False, True, False, True, False, False, False, False, True, False, True, False]"
    by (simp add: p1_eval)
  moreover have "h_ignore_preconditions air_cargo_p1
     \<lparr>state = [False, True, False, True, False, False, False, True, False, False, True, False]\<rparr> = Inr 1"
    by (simp add: h_ignore_preconditions_def p1_state_map p1_goal decode_state_def
        At_def In_def Symbol_def)
  moreover have "h_ignore_preconditions air_cargo_p1
     \<lparr>state = [False, True, False, True, False, False, False, False, True, False, True, False]\<rparr> = Inr 2"
    by (simp add: h_ignore_preconditions_def p1_state_map p1_goal decode_state_def
        At_def In_def Symbol_def)
  ultimately show ?thesis using p1_reach3 by (intro conjI) simp_all
qed

end
